theory Spec2Isabelle
  imports Complex_Main "HOL-Library.Word" "HOL-Library.Signed_Division"
begin

unbundle bit_operations_syntax

section \<open>Machine integers of the source\<close>

text \<open>
  The fixed-width integer types of \<^verbatim>\<open>stdint.h\<close> are words, and \<^verbatim>\<open>int\<close> is 32 bits
  wide (\<^verbatim>\<open>int32_t\<close> is \<^verbatim>\<open>int\<close>). The arithmetic is that of two's complement:
  \<^item> signed overflow wraps, and a left shift is the multiplication by a power of two
    modulo the width (\<open>push_bit\<close>);
  \<^item> a conversion between integer types keeps the value modulo the width of the target
    (\<open>scast\<close>, which extends the sign when it widens);
  \<^item> a right shift of a signed value is arithmetic (\<open>signed_drop_bit\<close>).
\<close>

type_synonym int16_t = "16 word"
type_synonym int32_t = "32 word"
type_synonym int64_t = "64 word"
type_synonym uint8_t = "8 word"

text \<open>\<open>representable n k\<close>: the integer \<open>k\<close> is a value of the signed type of \<open>n\<close> bits.\<close>

definition representable :: "nat \<Rightarrow> int \<Rightarrow> bool" where
  "representable n k = (- (2 ^ (n - 1)) \<le> k \<and> k < 2 ^ (n - 1))"

text \<open>
  A \<^verbatim>\<open>double\<close> is modelled by the real number it denotes. The only floating-point
  operation of the constructor is a multiplication by a power of two, which is exact
  (overflow and underflow of the exponent apart), and the cast of a \<^verbatim>\<open>double\<close> to an
  integer type drops the fraction, rounding toward zero. A result out of the range of
  the integer type is reduced modulo its width.
\<close>

definition round_toward_zero :: "real \<Rightarrow> int" where
  "round_toward_zero x = (if 0 \<le> x then \<lfloor>x\<rfloor> else \<lceil>x\<rceil>)"

section \<open>FpS: the scale is a template parameter\<close>

text \<open>
  \<^verbatim>\<open>template<class BaseType, class OverflowType, uint8_t numFracBits_> class FpS\<close> has
  one data member, \<^verbatim>\<open>BaseType rawVal_\<close>, the field \<open>FpS_rawVal\<close>. The record is
  polymorphic in the base type and the operations are defined at \<open>'b word\<close>, a signed
  integer of \<open>LENGTH('b)\<close> bits (the \<^verbatim>\<open>static_assert\<close> asks for an integral type, and
  both instantiations of the source are signed). The two other template parameters are
  arguments of the operations that use them: \<open>F\<close> is \<^verbatim>\<open>numFracBits_\<close> and \<open>TYPE('o)\<close> is
  \<^verbatim>\<open>OverflowType\<close>.
\<close>

record 'base FpS =
  FpS_rawVal :: 'base

type_synonym fp16 = "int16_t FpS"
type_synonym fp32 = "int32_t FpS"

subsection \<open>Constructors\<close>

text \<open>
  \<^verbatim>\<open>FpS(int32_t integer) { rawVal_ = integer << numFracBits_; }\<close>
  The shift is done in \<^verbatim>\<open>int32_t\<close>, the assignment converts to \<^verbatim>\<open>BaseType\<close>.
\<close>

definition FpS_int :: "nat \<Rightarrow> int32_t \<Rightarrow> 'b::len word FpS" where
  "FpS_int F integer = \<lparr>FpS_rawVal = scast (push_bit F integer)\<rparr>"

text \<open>
  The value of \<^verbatim>\<open>(BaseType)1 << numFracBits_\<close>: a base type narrower than \<^verbatim>\<open>int\<close> is
  promoted to \<^verbatim>\<open>int\<close> before the shift.
\<close>

definition one_shl :: "'b::len itself \<Rightarrow> nat \<Rightarrow> int" where
  "one_shl T F =
     (if LENGTH('b) \<le> 32 then sint (push_bit F (1 :: int32_t))
      else sint (push_bit F (1 :: 'b word)))"

text \<open>
  \<^verbatim>\<open>FpS(double dbl) { rawVal_ = (BaseType)(dbl * ((BaseType)1 << numFracBits_)); }\<close>
\<close>

definition FpS_double :: "nat \<Rightarrow> real \<Rightarrow> 'b::len word FpS" where
  "FpS_double F dbl =
     \<lparr>FpS_rawVal = word_of_int (round_toward_zero (dbl * of_int (one_shl TYPE('b) F)))\<rparr>"

subsection \<open>Getters\<close>

definition GetRawVal :: "'b::len word FpS \<Rightarrow> 'b word" where
  "GetRawVal x = FpS_rawVal x"

subsection \<open>Compound arithmetic operators\<close>

text \<open>
  Each compound operator assigns to \<^verbatim>\<open>rawVal_\<close> of \<^verbatim>\<open>*this\<close> and returns \<^verbatim>\<open>*this\<close>: the
  model takes the object and returns it updated. Operands narrower than \<^verbatim>\<open>int\<close> are
  promoted before \<^verbatim>\<open>+\<close> and \<^verbatim>\<open>-\<close> and the result is converted back to \<^verbatim>\<open>BaseType\<close>,
  which is the addition and subtraction of \<open>'b word\<close>.
\<close>

text \<open>\<^verbatim>\<open>operator+=\<close>: \<^verbatim>\<open>rawVal_ = rawVal_ + r.rawVal_;\<close>\<close>

definition FpS_add_assign :: "'b::len word FpS \<Rightarrow> 'b word FpS \<Rightarrow> 'b word FpS" where
  "FpS_add_assign x r = x\<lparr>FpS_rawVal := FpS_rawVal x + FpS_rawVal r\<rparr>"

text \<open>
  Unary \<^verbatim>\<open>operator-() const { return FpS(-rawVal_); }\<close>
  The operand of the constructor call is \<^verbatim>\<open>-rawVal_\<close>, an integer of the promoted type,
  so overload resolution picks \<^verbatim>\<open>FpS(int32_t)\<close>. A raw value narrower than \<^verbatim>\<open>int\<close> is
  extended to 32 bits and then negated there.
\<close>

definition FpS_neg :: "nat \<Rightarrow> 'b::len word FpS \<Rightarrow> 'b word FpS" where
  "FpS_neg F x = FpS_int F (- scast (FpS_rawVal x))"

text \<open>\<^verbatim>\<open>operator-=\<close>: \<^verbatim>\<open>rawVal_ = rawVal_ - r.rawVal_;\<close>\<close>

definition FpS_sub_assign :: "'b::len word FpS \<Rightarrow> 'b word FpS \<Rightarrow> 'b word FpS" where
  "FpS_sub_assign x r = x\<lparr>FpS_rawVal := FpS_rawVal x - FpS_rawVal r\<rparr>"

text \<open>
  \<^verbatim>\<open>operator*=\<close>:
  \<^verbatim>\<open>rawVal_ = (BaseType)(((OverflowType)rawVal_ * (OverflowType)r.rawVal_) >> numFracBits_);\<close>
  The product and the shift are those of \<^verbatim>\<open>OverflowType\<close>, a type at least as wide as
  \<^verbatim>\<open>int\<close> (it is \<^verbatim>\<open>int32_t\<close> for \<open>fp16\<close> and \<^verbatim>\<open>int64_t\<close> for \<open>fp32\<close>).
\<close>

definition FpS_mul_assign ::
  "'o::len itself \<Rightarrow> nat \<Rightarrow> 'b::len word FpS \<Rightarrow> 'b word FpS \<Rightarrow> 'b word FpS" where
  "FpS_mul_assign T F x r =
     x\<lparr>FpS_rawVal :=
         scast (signed_drop_bit F ((scast (FpS_rawVal x) :: 'o word) * scast (FpS_rawVal r)))\<rparr>"

text \<open>
  \<^verbatim>\<open>operator/=\<close>:
  \<^verbatim>\<open>rawVal_ = (BaseType)((((OverflowType)rawVal_ << numFracBits_) / (OverflowType)r.rawVal_));\<close>
  Integer division of C++ truncates toward zero (\<open>sdiv\<close>). The source does not test the
  divisor. A division by zero, and the division of the least value of \<^verbatim>\<open>OverflowType\<close> by
  \<open>-1\<close>, are undefined behaviour: the operation has no result there, which is \<open>None\<close>.
\<close>

definition FpS_div_assign ::
  "'o::len itself \<Rightarrow> nat \<Rightarrow> 'b::len word FpS \<Rightarrow> 'b word FpS \<Rightarrow> 'b word FpS option" where
  "FpS_div_assign T F x r =
     (let n = push_bit F (scast (FpS_rawVal x) :: 'o word);
          d = (scast (FpS_rawVal r) :: 'o word)
      in if d = 0 \<or> (sint n = - (2 ^ (LENGTH('o) - 1)) \<and> d = - 1) then None
         else Some (x\<lparr>FpS_rawVal := scast (word_of_int (sint n sdiv sint d) :: 'o word)\<rparr>))"

subsection \<open>Simple arithmetic operators\<close>

text \<open>
  \<^verbatim>\<open>FpS operator+(FpS r) const { FpS x = *this; x += r; return x; }\<close>
  and the same for \<^verbatim>\<open>-\<close>, \<^verbatim>\<open>*\<close> and \<^verbatim>\<open>/\<close>: the compound operator is applied to a copy.
\<close>

definition FpS_add :: "'b::len word FpS \<Rightarrow> 'b word FpS \<Rightarrow> 'b word FpS" where
  "FpS_add this r = (let x = this in FpS_add_assign x r)"

definition FpS_sub :: "'b::len word FpS \<Rightarrow> 'b word FpS \<Rightarrow> 'b word FpS" where
  "FpS_sub this r = (let x = this in FpS_sub_assign x r)"

definition FpS_mul ::
  "'o::len itself \<Rightarrow> nat \<Rightarrow> 'b::len word FpS \<Rightarrow> 'b word FpS \<Rightarrow> 'b word FpS" where
  "FpS_mul T F this r = (let x = this in FpS_mul_assign T F x r)"

definition FpS_div ::
  "'o::len itself \<Rightarrow> nat \<Rightarrow> 'b::len word FpS \<Rightarrow> 'b word FpS \<Rightarrow> 'b word FpS option" where
  "FpS_div T F this r = (let x = this in FpS_div_assign T F x r)"

subsection \<open>Comparison overloads\<close>

text \<open>
  Each compares \<^verbatim>\<open>rawVal_\<close> with \<^verbatim>\<open>r.rawVal_\<close>, as signed integers (\<open><s\<close> and \<open>\<le>s\<close> on
  words).
\<close>

definition FpS_eq :: "'b::len word FpS \<Rightarrow> 'b word FpS \<Rightarrow> bool" where
  "FpS_eq x r = (FpS_rawVal x = FpS_rawVal r)"

definition FpS_ne :: "'b::len word FpS \<Rightarrow> 'b word FpS \<Rightarrow> bool" where
  "FpS_ne x r = (FpS_rawVal x \<noteq> FpS_rawVal r)"

definition FpS_lt :: "'b::len word FpS \<Rightarrow> 'b word FpS \<Rightarrow> bool" where
  "FpS_lt x r = (FpS_rawVal x <s FpS_rawVal r)"

definition FpS_gt :: "'b::len word FpS \<Rightarrow> 'b word FpS \<Rightarrow> bool" where
  "FpS_gt x r = (FpS_rawVal r <s FpS_rawVal x)"

definition FpS_le :: "'b::len word FpS \<Rightarrow> 'b word FpS \<Rightarrow> bool" where
  "FpS_le x r = (FpS_rawVal x \<le>s FpS_rawVal r)"

definition FpS_ge :: "'b::len word FpS \<Rightarrow> 'b word FpS \<Rightarrow> bool" where
  "FpS_ge x r = (FpS_rawVal r \<le>s FpS_rawVal x)"

subsection \<open>Conversion methods\<close>

text \<open>
  \<^verbatim>\<open>template<class IntType> IntType ToInt() const { return (IntType)(rawVal_ >> numFracBits_); }\<close>
  The promotion of a narrow \<^verbatim>\<open>rawVal_\<close> to \<^verbatim>\<open>int\<close> extends the sign, and an arithmetic
  shift of the extended value is the extension of the arithmetic shift.
\<close>

definition ToInt :: "nat \<Rightarrow> 'b::len word FpS \<Rightarrow> 'i::len word" where
  "ToInt F x = scast (signed_drop_bit F (FpS_rawVal x))"

text \<open>
  The number a value stands for: the raw value over the scaling factor \<open>2 ^ F\<close>.
\<close>

definition represented :: "nat \<Rightarrow> 'b::len word FpS \<Rightarrow> real" where
  "represented F x = of_int (sint (FpS_rawVal x)) / 2 ^ F"

section \<open>Fp32s: the scale is a field\<close>

text \<open>
  \<^verbatim>\<open>class Fp32s { public: int32_t rawVal; uint8_t q; ... }\<close>:
  the fields \<open>Fp32s_rawVal\<close> and \<open>Fp32s_q\<close>.
\<close>

record Fp32s =
  Fp32s_rawVal :: int32_t
  Fp32s_q :: uint8_t

text \<open>
  \<^verbatim>\<open>Fp32s(int32_t i, uint8_t qin) { rawVal = i << qin; q = qin; }\<close>
  The shift is one of \<^verbatim>\<open>int\<close>. A shift count of 32 or more is undefined behaviour: the
  constructor has no result there, which is \<open>None\<close>.
\<close>

definition Fp32s_int :: "int32_t \<Rightarrow> uint8_t \<Rightarrow> Fp32s option" where
  "Fp32s_int i qin =
     (if 32 \<le> unat qin then None
      else Some \<lparr>Fp32s_rawVal = push_bit (unat qin) i, Fp32s_q = qin\<rparr>)"

text \<open>
  \<^verbatim>\<open>operator+=\<close>:
  \<^verbatim>\<open>if(q > r.q) { rawVal = (rawVal > (q - r.q)) + r.rawVal; q = q - r.q; } return *this;\<close>
  The operands of \<^verbatim>\<open>q > r.q\<close> and of \<^verbatim>\<open>q - r.q\<close> are promoted to \<^verbatim>\<open>int\<close>; inside the branch
  the difference is positive. The comparison \<^verbatim>\<open>rawVal > (q - r.q)\<close> is one of two
  \<^verbatim>\<open>int\<close>s and its result, a \<^verbatim>\<open>bool\<close>, is added as 0 or 1.
\<close>

definition Fp32s_add_assign :: "Fp32s \<Rightarrow> Fp32s \<Rightarrow> Fp32s" where
  "Fp32s_add_assign x r =
     (if Fp32s_q r < Fp32s_q x then
        x\<lparr>Fp32s_rawVal :=
            (if (ucast (Fp32s_q x - Fp32s_q r) :: int32_t) <s Fp32s_rawVal x then 1 else 0)
            + Fp32s_rawVal r,
          Fp32s_q := Fp32s_q x - Fp32s_q r\<rparr>
      else x)"

section \<open>Inputs of the examples\<close>

text \<open>
  The \<^verbatim>\<open>double\<close> nearest to the decimal 66.3: \<open>4665447738979123 / 2 ^ 46\<close>.
\<close>

definition double_66_3 :: real where
  "double_66_3 = 4665447738979123 / 70368744177664"

section \<open>Words and the integers they stand for\<close>

lemma sint_word_of_int_representable:
  "representable LENGTH('a::len) k \<Longrightarrow> sint (word_of_int k :: 'a word) = k"
  by (simp add: representable_def sint_sbintrunc' signed_take_bit_int_eq_self)

lemma floor_represented: "\<lfloor>represented F v\<rfloor> = sint (FpS_rawVal v) div 2 ^ F"
proof -
  have "represented F v = of_int (sint (FpS_rawVal v)) / of_int (2 ^ F)"
    by (simp add: represented_def)
  then show ?thesis
    by (simp only: floor_divide_of_int_eq)
qed

lemma ToInt_word_of_int:
  "(ToInt F v :: 'i::len word) = word_of_int (sint (FpS_rawVal v) div 2 ^ F)"
  by (simp add: ToInt_def scast_eq sint_signed_drop_bit_eq drop_bit_eq_div)

lemma representable_mono: "n \<le> m \<Longrightarrow> representable n k \<Longrightarrow> representable m k"
proof -
  assume nm: "n \<le> m" and r: "representable n k"
  from nm have "n - 1 \<le> m - 1" by simp
  then have "(2::int) ^ (n - 1) \<le> 2 ^ (m - 1)"
    by (rule power_increasing) simp
  with r show ?thesis
    unfolding representable_def by linarith
qed

lemma representable_sint: "representable LENGTH('a::len) (sint (w :: 'a word))"
  unfolding representable_def using sint_ge [of w] sint_lt [of w] by simp

lemma representable_abs: "\<bar>k\<bar> < 2 ^ (n - 1) \<Longrightarrow> representable n k"
  unfolding representable_def by linarith

lemma abs_sint_le: "\<bar>sint (w :: 'a::len word)\<bar> \<le> 2 ^ (LENGTH('a) - 1)"
  using sint_ge [of w] sint_lt [of w] by linarith

lemma floor_real_div_power: "\<lfloor>real_of_int k / 2 ^ F\<rfloor> = k div 2 ^ F"
proof -
  have "real_of_int k / 2 ^ F = of_int k / of_int (2 ^ F)" by simp
  then show ?thesis by (simp only: floor_divide_of_int_eq)
qed

lemma sint_eq_0_iff: "sint w = 0 \<longleftrightarrow> w = 0"
  by (simp add: signed_eq_0_iff)

lemma sint_scast_widen:
  fixes r :: "'b::len word"
  assumes "LENGTH('b) \<le> LENGTH('o::len)"
  shows "sint (scast r :: 'o word) = sint r"
proof -
  have "representable LENGTH('o) (sint r)"
    using assms representable_sint by (rule representable_mono)
  then show ?thesis
    by (simp only: scast_eq sint_word_of_int_representable)
qed

lemma scast_mult_scast:
  "(scast a :: 'o::len word) * scast b = word_of_int (sint a * sint b)"
  by (simp only: scast_eq wi_homs)

lemma push_bit_scast:
  "push_bit F (scast a :: 'o::len word) = word_of_int (sint a * 2 ^ F)"
proof -
  have "push_bit F (scast a :: 'o word) = word_of_int (sint a) * 2 ^ F"
    by (simp only: scast_eq push_bit_eq_mult)
  also have "\<dots> = word_of_int (sint a * 2 ^ F)"
    by simp
  finally show ?thesis .
qed

lemma scast_word_of_int_representable:
  "representable LENGTH('o::len) k \<Longrightarrow> (scast (word_of_int k :: 'o word) :: 'b::len word) = word_of_int k"
  by (simp only: scast_eq sint_word_of_int_representable)

lemma representable_product:
  fixes a b :: "'b::len word"
  assumes "2 * LENGTH('b) \<le> LENGTH('o::len)"
  shows "representable LENGTH('o) (sint a * sint b)"
proof (rule representable_abs)
  have "\<bar>sint a\<bar> * \<bar>sint b\<bar> \<le> 2 ^ (LENGTH('b) - 1) * 2 ^ (LENGTH('b) - 1)"
    by (intro mult_mono abs_sint_le) auto
  then have "\<bar>sint a * sint b\<bar> \<le> 2 ^ (LENGTH('b) - 1 + (LENGTH('b) - 1))"
    by (simp only: abs_mult power_add)
  also have "(2::int) ^ (LENGTH('b) - 1 + (LENGTH('b) - 1)) < 2 ^ (LENGTH('o) - 1)"
  proof (rule power_strict_increasing)
    show "LENGTH('b) - 1 + (LENGTH('b) - 1) < LENGTH('o) - 1"
      using assms len_gt_0 [where 'a = 'b] by linarith
  qed simp
  finally show "\<bar>sint a * sint b\<bar> < 2 ^ (LENGTH('o) - 1)" .
qed

lemma representable_scaled:
  fixes a :: "'b::len word"
  assumes "LENGTH('b) + F < LENGTH('o::len)"
  shows "\<bar>sint a * 2 ^ F\<bar> < 2 ^ (LENGTH('o) - 1)"
proof -
  have "\<bar>sint a\<bar> * 2 ^ F \<le> 2 ^ (LENGTH('b) - 1) * 2 ^ F"
    by (intro mult_right_mono abs_sint_le) auto
  then have "\<bar>sint a * 2 ^ F\<bar> \<le> 2 ^ (LENGTH('b) - 1 + F)"
    by (simp add: abs_mult power_add)
  also have "(2::int) ^ (LENGTH('b) - 1 + F) < 2 ^ (LENGTH('o) - 1)"
  proof (rule power_strict_increasing)
    show "LENGTH('b) - 1 + F < LENGTH('o) - 1"
      using assms len_gt_0 [where 'a = 'b] by linarith
  qed simp
  finally show ?thesis .
qed

lemma round_toward_zero_sdiv: "round_toward_zero (of_int n / of_int d) = n sdiv d"
proof (cases "0 \<le> (of_int n / of_int d :: real)")
  case True
  then have "sgn n = sgn d \<or> n = 0 \<or> d = 0"
    by (auto simp: zero_le_divide_iff sgn_if)
  then have "n sdiv d = n div d"
    by (auto simp: signed_divide_int_eq_divide_int)
  with True show ?thesis
    by (simp add: round_toward_zero_def floor_divide_of_int_eq)
next
  case False
  then have d: "d \<noteq> 0" and s: "sgn n \<noteq> sgn d"
    by (auto simp: zero_le_divide_iff sgn_if not_le split: if_splits)
  have "- (of_int n / of_int d :: real) = of_int (- n) / of_int d"
    by simp
  then have "\<lceil>(of_int n / of_int d :: real)\<rceil> = - ((- n) div d)"
    unfolding ceiling_def by (simp only: floor_divide_of_int_eq)
  also have "\<dots> = n div d + of_bool (\<not> d dvd n)"
    using d by (auto simp: zdiv_zminus1_eq_if dvd_eq_mod_eq_0)
  also have "\<dots> = n sdiv d"
    using d s by (simp add: signed_divide_int_eq_divide_int)
  finally show ?thesis
    using False by (simp add: round_toward_zero_def)
qed

lemma sint_eq_iff: "(sint v = sint w) = (v = (w :: 'a::len word))"
  by (auto intro: signed_word_eqI)

section \<open>Conversion to an integer\<close>

text \<open>
  C1. \<open>ToInt\<close> returns the floor of the represented value \<open>rawVal_ / 2 ^ F\<close>, converted
  to the return type: it rounds toward negative infinity. Whenever the return type can
  hold that floor, the result read as a signed integer is the floor itself. An \<open>fp16\<close>
  and an \<open>fp32\<close> constructed from the double 66.3 convert to 66, and constructed from
  the double -66.3 they convert to -67.
\<close>

theorem ToInt_rounds_toward_negative_infinity:
  "(ToInt F v :: 'i::len word) = word_of_int \<lfloor>represented F v\<rfloor>
   \<and> (representable LENGTH('i) \<lfloor>represented F v\<rfloor>
        \<longrightarrow> sint (ToInt F v :: 'i word) = \<lfloor>represented F v\<rfloor>)
   \<and> ToInt 8 (FpS_double 8 double_66_3 :: fp16) = (66 :: int32_t)
   \<and> ToInt 8 (FpS_double 8 (- double_66_3) :: fp16) = (- 67 :: int32_t)
   \<and> ToInt 16 (FpS_double 16 double_66_3 :: fp32) = (66 :: int32_t)
   \<and> ToInt 16 (FpS_double 16 (- double_66_3) :: fp32) = (- 67 :: int32_t)"
proof -
  have gen: "(ToInt F v :: 'i word) = word_of_int \<lfloor>represented F v\<rfloor>"
    by (simp only: ToInt_word_of_int floor_represented)
  have fits: "sint (ToInt F v :: 'i word) = \<lfloor>represented F v\<rfloor>"
    if "representable LENGTH('i) \<lfloor>represented F v\<rfloor>"
    using that by (simp only: gen sint_word_of_int_representable)
  have p16: "ToInt 8 (FpS_double 8 double_66_3 :: fp16) = (66 :: int32_t)"
    by (simp add: ToInt_def FpS_double_def one_shl_def round_toward_zero_def double_66_3_def)
  have n16: "ToInt 8 (FpS_double 8 (- double_66_3) :: fp16) = (- 67 :: int32_t)"
    by (simp add: ToInt_def FpS_double_def one_shl_def round_toward_zero_def double_66_3_def)
  have p32: "ToInt 16 (FpS_double 16 double_66_3 :: fp32) = (66 :: int32_t)"
    by (simp add: ToInt_def FpS_double_def one_shl_def round_toward_zero_def double_66_3_def)
  have n32: "ToInt 16 (FpS_double 16 (- double_66_3) :: fp32) = (- 67 :: int32_t)"
    by (simp add: ToInt_def FpS_double_def one_shl_def round_toward_zero_def double_66_3_def)
  from gen fits p16 n16 p32 n32 show ?thesis by blast
qed

text \<open>
  The raw value -16972 of an \<open>fp16\<close> (the one constructed from -66.3) stands for
  -66.296875, and a 32-bit result holds the floor -67.
\<close>

theorem ToInt_rounds_toward_negative_infinity_witness:
  "representable 32 \<lfloor>represented 8 (\<lparr>FpS_rawVal = - 16972\<rparr> :: fp16)\<rfloor>
   \<and> sint (ToInt 8 (\<lparr>FpS_rawVal = - 16972\<rparr> :: fp16) :: int32_t) = - 67"
proof -
  let ?v = "\<lparr>FpS_rawVal = - 16972\<rparr> :: fp16"
  have fl: "\<lfloor>represented 8 ?v\<rfloor> = - 67"
    by (simp add: floor_represented)
  have h: "representable LENGTH(32) \<lfloor>represented 8 ?v\<rfloor>"
    by (simp add: fl representable_def)
  have "sint (ToInt 8 ?v :: int32_t) = \<lfloor>represented 8 ?v\<rfloor>"
    using ToInt_rounds_toward_negative_infinity [of 8 ?v, where 'i = 32] h by blast
  with fl h show ?thesis by simp
qed

section \<open>Multiplication\<close>

lemma FpS_mul_assign_representable:
  assumes "representable LENGTH('o::len) (sint (FpS_rawVal a) * sint (FpS_rawVal b))"
  shows "FpS_rawVal (FpS_mul_assign TYPE('o) F a b)
     = (word_of_int ((sint (FpS_rawVal a) * sint (FpS_rawVal b)) div 2 ^ F) :: 'b::len word)"
proof -
  let ?p = "sint (FpS_rawVal a) * sint (FpS_rawVal b)"
  have "sint (word_of_int ?p :: 'o word) = ?p"
    using assms by (rule sint_word_of_int_representable)
  then have shifted: "sint (signed_drop_bit F (word_of_int ?p :: 'o word)) = ?p div 2 ^ F"
    by (simp only: sint_signed_drop_bit_eq drop_bit_eq_div)
  have "FpS_rawVal (FpS_mul_assign TYPE('o) F a b)
      = scast (signed_drop_bit F (word_of_int ?p :: 'o word))"
    unfolding FpS_mul_assign_def scast_mult_scast by simp
  also have "\<dots> = word_of_int (?p div 2 ^ F)"
    using shifted by (simp only: scast_eq)
  finally show ?thesis .
qed

text \<open>
  C3. \<open>operator*=\<close> multiplies in the overflow type. Whenever the exact product of the
  two raw values is representable there, the new raw value is the floor of that product
  over \<open>2 ^ F\<close>, reduced modulo the width of the base type. That is so for every pair of
  operands when the overflow type is at least twice as wide as the base type, as it is
  for \<open>fp16\<close> and \<open>fp32\<close>.
\<close>

theorem FpS_mul_assign_widened:
  fixes a b :: "'b::len word FpS"
  shows
  "(representable LENGTH('o::len) (sint (FpS_rawVal a) * sint (FpS_rawVal b))
      \<longrightarrow> FpS_rawVal (FpS_mul_assign TYPE('o) F a b)
          = word_of_int \<lfloor>real_of_int (sint (FpS_rawVal a) * sint (FpS_rawVal b)) / 2 ^ F\<rfloor>)
   \<and> (2 * LENGTH('b) \<le> LENGTH('o)
      \<longrightarrow> FpS_rawVal (FpS_mul_assign TYPE('o) F a b)
          = word_of_int \<lfloor>real_of_int (sint (FpS_rawVal a) * sint (FpS_rawVal b)) / 2 ^ F\<rfloor>)"
proof (intro conjI impI)
  assume "representable LENGTH('o) (sint (FpS_rawVal a) * sint (FpS_rawVal b))"
  then show "FpS_rawVal (FpS_mul_assign TYPE('o) F a b)
      = word_of_int \<lfloor>real_of_int (sint (FpS_rawVal a) * sint (FpS_rawVal b)) / 2 ^ F\<rfloor>"
    by (simp only: FpS_mul_assign_representable floor_real_div_power)
next
  assume "2 * LENGTH('b) \<le> LENGTH('o)"
  then have "representable LENGTH('o) (sint (FpS_rawVal a) * sint (FpS_rawVal b))"
    by (rule representable_product)
  then show "FpS_rawVal (FpS_mul_assign TYPE('o) F a b)
      = word_of_int \<lfloor>real_of_int (sint (FpS_rawVal a) * sint (FpS_rawVal b)) / 2 ^ F\<rfloor>"
    by (simp only: FpS_mul_assign_representable floor_real_div_power)
qed

text \<open>
  Two \<open>fp16\<close> operands of the greatest raw value 32767: the product 1073676289 fits in
  32 bits and the result is the reference value. A product computed in 16 bits would
  have wrapped to 1 and given 0.
\<close>

theorem FpS_mul_assign_widened_witness:
  "representable 32 (sint (32767 :: int16_t) * sint (32767 :: int16_t))
   \<and> 2 * 16 \<le> (32 :: nat)
   \<and> FpS_rawVal (FpS_mul_assign TYPE(32) 8 (\<lparr>FpS_rawVal = 32767\<rparr> :: fp16) \<lparr>FpS_rawVal = 32767\<rparr>)
        = word_of_int \<lfloor>real_of_int (32767 * 32767) / 2 ^ 8\<rfloor>
   \<and> (word_of_int \<lfloor>real_of_int (32767 * 32767) / 2 ^ 8\<rfloor> :: int16_t) = - 256
   \<and> signed_drop_bit 8 ((32767 :: int16_t) * 32767) = 0"
proof -
  let ?a = "\<lparr>FpS_rawVal = 32767\<rparr> :: fp16"
  have h: "representable LENGTH(32) (sint (FpS_rawVal ?a) * sint (FpS_rawVal ?a))"
    by (simp add: representable_def)
  have "FpS_rawVal (FpS_mul_assign TYPE(32) 8 ?a ?a)
      = word_of_int \<lfloor>real_of_int (sint (FpS_rawVal ?a) * sint (FpS_rawVal ?a)) / 2 ^ 8\<rfloor>"
    using FpS_mul_assign_widened [of ?a ?a 8, where 'o = 32] h by blast
  then have r: "FpS_rawVal (FpS_mul_assign TYPE(32) 8 ?a ?a)
      = word_of_int \<lfloor>real_of_int (32767 * 32767) / 2 ^ 8\<rfloor>"
    by simp
  have v: "(word_of_int \<lfloor>real_of_int (32767 * 32767) / 2 ^ 8\<rfloor> :: int16_t) = - 256"
    by simp
  have u: "signed_drop_bit 8 ((32767 :: int16_t) * 32767) = 0"
    by simp
  have h': "representable 32 (sint (32767 :: int16_t) * sint (32767 :: int16_t))"
    by (simp add: representable_def)
  from h' r v u show ?thesis by simp
qed

section \<open>Division\<close>

lemma FpS_div_assign_representable:
  fixes a r :: "'b::len word FpS"
  assumes wide: "LENGTH('b) \<le> LENGTH('o::len)"
    and nz: "FpS_rawVal r \<noteq> 0"
    and num: "representable LENGTH('o) (sint (FpS_rawVal a) * 2 ^ F)"
    and quot: "representable LENGTH('o) ((sint (FpS_rawVal a) * 2 ^ F) sdiv sint (FpS_rawVal r))"
  shows "FpS_div_assign TYPE('o) F a r
     = Some (a\<lparr>FpS_rawVal := word_of_int ((sint (FpS_rawVal a) * 2 ^ F) sdiv sint (FpS_rawVal r))\<rparr>)"
proof -
  let ?n = "sint (FpS_rawVal a) * 2 ^ F"
  let ?N = "push_bit F (scast (FpS_rawVal a) :: 'o word)"
  let ?D = "scast (FpS_rawVal r) :: 'o word"
  have N: "sint ?N = ?n"
    using num by (simp only: push_bit_scast sint_word_of_int_representable)
  have D: "sint ?D = sint (FpS_rawVal r)"
    using wide by (rule sint_scast_widen)
  have D0: "?D \<noteq> 0"
  proof
    assume "?D = 0"
    then have "sint ?D = 0" by simp
    with D have "sint (FpS_rawVal r) = 0" by simp
    with nz show False by (simp add: sint_eq_0_iff)
  qed
  have no_ovf: "\<not> (sint ?N = - (2 ^ (LENGTH('o) - 1)) \<and> ?D = - 1)"
  proof
    assume h: "sint ?N = - (2 ^ (LENGTH('o) - 1)) \<and> ?D = - 1"
    then have "sint ?D = - 1" by simp
    with D have "sint (FpS_rawVal r) = - 1" by simp
    with h N have "?n sdiv sint (FpS_rawVal r) = 2 ^ (LENGTH('o) - 1)" by simp
    with quot show False by (simp add: representable_def)
  qed
  have "(scast (word_of_int (sint ?N sdiv sint ?D) :: 'o word) :: 'b word)
      = word_of_int (?n sdiv sint (FpS_rawVal r))"
    using quot unfolding N D by (rule scast_word_of_int_representable)
  with D0 no_ovf show ?thesis
    unfolding FpS_div_assign_def Let_def by simp
qed

lemma scaled_quotient:
  assumes "FpS_rawVal r \<noteq> 0"
  shows "(sint (FpS_rawVal a) * 2 ^ F) sdiv sint (FpS_rawVal r)
     = round_toward_zero (represented F a / represented F r * 2 ^ F)"
proof -
  have "represented F a / represented F r * 2 ^ F
      = of_int (sint (FpS_rawVal a) * 2 ^ F) / of_int (sint (FpS_rawVal r))"
    by (simp add: represented_def)
  then show ?thesis
    by (simp only: round_toward_zero_sdiv)
qed

lemma FpS_div_assign_room:
  fixes a r :: "'b::len word FpS"
  assumes nz: "FpS_rawVal r \<noteq> 0" and room: "LENGTH('b) + F < LENGTH('o::len)"
  shows "FpS_div_assign TYPE('o) F a r
     = Some (a\<lparr>FpS_rawVal := word_of_int ((sint (FpS_rawVal a) * 2 ^ F) sdiv sint (FpS_rawVal r))\<rparr>)"
proof (rule FpS_div_assign_representable)
  let ?n = "sint (FpS_rawVal a) * 2 ^ F"
  show "LENGTH('b) \<le> LENGTH('o)" using room by simp
  show "FpS_rawVal r \<noteq> 0" by (rule nz)
  have n: "\<bar>?n\<bar> < 2 ^ (LENGTH('o) - 1)"
    using room by (rule representable_scaled)
  then show "representable LENGTH('o) ?n" by (rule representable_abs)
  have "\<bar>?n sdiv sint (FpS_rawVal r)\<bar> \<le> \<bar>?n\<bar>"
    using sdiv_int_range [of ?n "sint (FpS_rawVal r)"] by auto
  with n have "\<bar>?n sdiv sint (FpS_rawVal r)\<bar> < 2 ^ (LENGTH('o) - 1)" by linarith
  then show "representable LENGTH('o) (?n sdiv sint (FpS_rawVal r))" by (rule representable_abs)
qed

lemma FpS_div_assign_zero: "FpS_rawVal r = 0 \<Longrightarrow> FpS_div_assign T F a r = None"
  by (simp add: FpS_div_assign_def)

text \<open>
  C4. With a right operand whose raw value is not zero, and an overflow type with room
  for the dividend shifted left by \<open>F\<close> bits (as for \<open>fp16\<close>, 16 + 8 < 32, and \<open>fp32\<close>,
  32 + 16 < 64), \<open>operator/=\<close> sets the raw value to the truncating quotient of the
  raw value times \<open>2 ^ F\<close> by the right operand's raw value. That quotient is the
  quotient of the two represented values, scaled by \<open>2 ^ F\<close> and rounded toward zero:
  the result is back at scale \<open>F\<close>. Nothing guards a zero divisor: the operation has no
  defined result there.
\<close>

theorem FpS_div_assign_prescaled:
  fixes a r :: "'b::len word FpS"
  shows
  "(FpS_rawVal r \<noteq> 0 \<and> LENGTH('b) + F < LENGTH('o::len) \<longrightarrow>
      FpS_div_assign TYPE('o) F a r
        = Some (a\<lparr>FpS_rawVal :=
             word_of_int ((sint (FpS_rawVal a) * 2 ^ F) sdiv sint (FpS_rawVal r))\<rparr>)
      \<and> (sint (FpS_rawVal a) * 2 ^ F) sdiv sint (FpS_rawVal r)
        = round_toward_zero (represented F a / represented F r * 2 ^ F))
   \<and> (FpS_rawVal r = 0 \<longrightarrow> FpS_div_assign TYPE('o) F a r = None)"
  using FpS_div_assign_room [of r F a, where 'o = 'o] scaled_quotient [of r a F] FpS_div_assign_zero [of r "TYPE('o)" F a]
  by blast

text \<open>
  An \<open>fp16\<close> of raw value 32767 divided by -3 (raw value -768): the quotient
  -10922.33 is truncated to -10922, not floored to -10923.
\<close>

theorem FpS_div_assign_prescaled_witness:
  "FpS_rawVal (\<lparr>FpS_rawVal = - 768\<rparr> :: fp16) \<noteq> 0 \<and> 16 + 8 < (32::nat)
   \<and> FpS_div_assign TYPE(32) 8 (\<lparr>FpS_rawVal = 32767\<rparr> :: fp16) \<lparr>FpS_rawVal = - 768\<rparr>
        = Some \<lparr>FpS_rawVal = - 10922\<rparr>
   \<and> round_toward_zero (represented 8 (\<lparr>FpS_rawVal = 32767\<rparr> :: fp16)
         / represented 8 (\<lparr>FpS_rawVal = - 768\<rparr> :: fp16) * 2 ^ 8) = - 10922
   \<and> FpS_div_assign TYPE(32) 8 (\<lparr>FpS_rawVal = 32767\<rparr> :: fp16) \<lparr>FpS_rawVal = 0\<rparr> = None"
proof -
  let ?a = "\<lparr>FpS_rawVal = 32767\<rparr> :: fp16"
  let ?r = "\<lparr>FpS_rawVal = - 768\<rparr> :: fp16"
  let ?z = "\<lparr>FpS_rawVal = 0\<rparr> :: fp16"
  have nz: "FpS_rawVal ?r \<noteq> 0" by simp
  have room: "LENGTH(16) + 8 < LENGTH(32)" by simp
  have q: "(sint (FpS_rawVal ?a) * 2 ^ 8) sdiv sint (FpS_rawVal ?r) = - 10922"
    by (simp add: signed_divide_int_def)
  from FpS_div_assign_prescaled [of ?r 8 ?a, where 'o = 32] nz room
  have d: "FpS_div_assign TYPE(32) 8 ?a ?r
        = Some (?a\<lparr>FpS_rawVal :=
             word_of_int ((sint (FpS_rawVal ?a) * 2 ^ 8) sdiv sint (FpS_rawVal ?r))\<rparr>)"
    and t: "(sint (FpS_rawVal ?a) * 2 ^ 8) sdiv sint (FpS_rawVal ?r)
        = round_toward_zero (represented 8 ?a / represented 8 ?r * 2 ^ 8)"
    by blast+
  from FpS_div_assign_prescaled [of ?z 8 ?a, where 'o = 32]
  have z: "FpS_div_assign TYPE(32) 8 ?a ?z = None"
    by simp
  from d q have d': "FpS_div_assign TYPE(32) 8 ?a ?r = Some \<lparr>FpS_rawVal = - 10922\<rparr>"
    by simp
  from t q have t': "round_toward_zero (represented 8 ?a / represented 8 ?r * 2 ^ 8) = - 10922"
    by simp
  from nz d' t' z show ?thesis by simp
qed

section \<open>Addition and subtraction\<close>

text \<open>
  C5. \<open>(a + b) - b == a\<close>, raw value for raw value, where the raw values of a sum and
  of a difference are the sum and the difference taken modulo the width of the base
  type.
\<close>

theorem FpS_add_then_sub:
  fixes a b :: "'b::len word FpS"
  shows "FpS_sub (FpS_add a b) b = a
   \<and> FpS_eq (FpS_sub (FpS_add a b) b) a
   \<and> FpS_rawVal (FpS_add a b) = word_of_int (sint (FpS_rawVal a) + sint (FpS_rawVal b))
   \<and> FpS_rawVal (FpS_sub a b) = word_of_int (sint (FpS_rawVal a) - sint (FpS_rawVal b))"
  by (simp add: FpS_sub_def FpS_add_def FpS_sub_assign_def FpS_add_assign_def FpS_eq_def)

section \<open>Construction from an integer\<close>

lemma sint_FpS_int:
  assumes "representable (min LENGTH('b::len) 32) (sint i * 2 ^ F)"
  shows "sint (FpS_rawVal (FpS_int F i :: 'b word FpS)) = sint i * 2 ^ F"
proof -
  have r32: "representable LENGTH(32) (sint i * 2 ^ F)"
    using _ assms by (rule representable_mono) simp
  have rb: "representable LENGTH('b) (sint i * 2 ^ F)"
    using _ assms by (rule representable_mono) simp
  have pb: "push_bit F i = (word_of_int (sint i * 2 ^ F) :: 32 word)"
    using push_bit_scast [of F i, where 'o = 32] by (simp only: scast_id)
  have "FpS_rawVal (FpS_int F i :: 'b word FpS) = scast (push_bit F i)"
    by (simp only: FpS_int_def FpS.select_convs)
  also have "\<dots> = scast (word_of_int (sint i * 2 ^ F) :: 32 word)"
    by (simp only: pb)
  also have "\<dots> = word_of_int (sint i * 2 ^ F)"
    using r32 by (rule scast_word_of_int_representable)
  finally have "FpS_rawVal (FpS_int F i :: 'b word FpS) = word_of_int (sint i * 2 ^ F)" .
  with rb show ?thesis
    by (simp only: sint_word_of_int_representable)
qed

lemma ToInt_FpS_int:
  assumes "representable (min LENGTH('b::len) 32) (sint i * 2 ^ F)"
  shows "(ToInt F (FpS_int F i :: 'b word FpS) :: 'i::len word) = scast i"
proof -
  have "(ToInt F (FpS_int F i :: 'b word FpS) :: 'i word) = word_of_int (sint i * 2 ^ F div 2 ^ F)"
    using assms by (simp only: ToInt_word_of_int sint_FpS_int)
  also have "sint i * 2 ^ F div 2 ^ F = sint i" by simp
  also have "word_of_int (sint i) = (scast i :: 'i word)" by (simp only: scast_eq)
  finally show ?thesis .
qed

text \<open>
  C6. The constructor shifts its \<^verbatim>\<open>int32_t\<close> argument \<open>i\<close> in 32 bits and converts the
  result to the base type. Whenever \<open>i * 2 ^ F\<close> is representable in the narrower of the
  two (the base type, for a base type of at most 32 bits such as those of \<open>fp16\<close> and
  \<open>fp32\<close>), converting the constructed value back gives \<open>i\<close>: exactly \<open>i\<close> for the return
  type \<^verbatim>\<open>int32_t\<close>, and \<open>i\<close> converted to the return type in general.
\<close>

theorem FpS_int_ToInt_roundtrip:
  assumes "representable (min LENGTH('b::len) 32) (sint i * 2 ^ F)"
  shows "(ToInt F (FpS_int F i :: 'b word FpS) :: int32_t) = i
    \<and> (ToInt F (FpS_int F i :: 'b word FpS) :: 'i::len word) = scast i"
  using assms by (simp only: ToInt_FpS_int scast_id simp_thms)

text \<open>
  The least integer of \<open>fp16\<close>: -128 has the raw value -32768 and converts back to -128.
\<close>

theorem FpS_int_ToInt_roundtrip_witness:
  "representable (min 16 32) (sint (- 128 :: int32_t) * 2 ^ 8)
   \<and> (ToInt 8 (FpS_int 8 (- 128) :: fp16) :: int32_t) = - 128
   \<and> FpS_rawVal (FpS_int 8 (- 128) :: fp16) = - 32768
   \<and> (ToInt 8 (FpS_int 8 (- 128) :: fp16) :: int64_t) = - 128"
proof -
  have h: "representable (min LENGTH(16) 32) (sint (- 128 :: int32_t) * 2 ^ 8)"
    by (simp add: representable_def)
  have raw: "FpS_rawVal (FpS_int 8 (- 128) :: fp16) = - 32768"
    by (simp add: FpS_int_def)
  from FpS_int_ToInt_roundtrip [OF h, where 'i = 64]
  have "(ToInt 8 (FpS_int 8 (- 128) :: fp16) :: int32_t) = - 128"
    and "(ToInt 8 (FpS_int 8 (- 128) :: fp16) :: int64_t) = scast (- 128 :: int32_t)"
    by blast+
  with h raw show ?thesis by simp
qed

section \<open>The value one\<close>

lemma sint_FpS_int_one: "representable (min LENGTH('b::len) 32) (2 ^ F) \<Longrightarrow>
   sint (FpS_rawVal (FpS_int F 1 :: 'b word FpS)) = 2 ^ F"
  using sint_FpS_int [of 1 F, where 'b = 'b] by simp

lemma FpS_mul_assign_one:
  fixes a :: "'b::len word FpS"
  assumes one: "representable (min LENGTH('b) 32) (2 ^ F)"
    and wid: "representable LENGTH('o::len) (sint (FpS_rawVal a) * 2 ^ F)"
  shows "FpS_mul_assign TYPE('o) F a (FpS_int F 1) = a"
proof -
  have "FpS_rawVal (FpS_mul_assign TYPE('o) F a (FpS_int F 1))
      = word_of_int (sint (FpS_rawVal a) * 2 ^ F div 2 ^ F)"
    using wid FpS_mul_assign_representable [of a "FpS_int F 1" F, where 'o = 'o]
    by (simp only: sint_FpS_int_one [OF one])
  also have "sint (FpS_rawVal a) * 2 ^ F div 2 ^ F = sint (FpS_rawVal a)" by simp
  finally have "FpS_rawVal (FpS_mul_assign TYPE('o) F a (FpS_int F 1)) = FpS_rawVal a"
    by simp
  then show ?thesis
    by (simp add: FpS_mul_assign_def)
qed

lemma sdiv_exact: "(k * 2 ^ F) sdiv 2 ^ F = (k::int)"
  by (simp add: signed_divide_int_def sgn_mult abs_mult flip: mult.assoc) (simp add: mult_sgn_abs)

lemma FpS_div_assign_one:
  fixes a :: "'b::len word FpS"
  assumes wide: "LENGTH('b) \<le> LENGTH('o::len)"
    and one: "representable (min LENGTH('b) 32) (2 ^ F)"
    and wid: "representable LENGTH('o::len) (sint (FpS_rawVal a) * 2 ^ F)"
  shows "FpS_div_assign TYPE('o) F a (FpS_int F 1) = Some a"
proof -
  let ?one = "FpS_int F 1 :: 'b word FpS"
  have s1: "sint (FpS_rawVal ?one) = 2 ^ F"
    using one by (rule sint_FpS_int_one)
  have nz: "FpS_rawVal ?one \<noteq> 0"
  proof
    assume "FpS_rawVal ?one = 0"
    then have "sint (FpS_rawVal ?one) = 0" by simp
    with s1 show False by simp
  qed
  have q: "(sint (FpS_rawVal a) * 2 ^ F) sdiv sint (FpS_rawVal ?one) = sint (FpS_rawVal a)"
    by (simp only: s1 sdiv_exact)
  have rq: "representable LENGTH('o) ((sint (FpS_rawVal a) * 2 ^ F) sdiv sint (FpS_rawVal ?one))"
    unfolding q using wide representable_sint by (rule representable_mono)
  have "FpS_div_assign TYPE('o) F a ?one
     = Some (a\<lparr>FpS_rawVal := word_of_int ((sint (FpS_rawVal a) * 2 ^ F) sdiv sint (FpS_rawVal ?one))\<rparr>)"
    using wide nz wid rq by (rule FpS_div_assign_representable)
  also have "\<dots> = Some a"
    unfolding q by simp
  finally show ?thesis .
qed

text \<open>
  C7. Let \<open>one\<close> be the value constructed from the integer 1, in an instantiation where
  its raw value is \<open>2 ^ F\<close> (that is, \<open>1 << F\<close> is representable) and the overflow type is
  at least as wide as the base type. For every \<open>a\<close> whose raw value times \<open>2 ^ F\<close> is
  representable in the overflow type, \<open>a * one\<close> and \<open>a / one\<close> are \<open>a\<close>, raw value for raw
  value, and the division is defined.
\<close>

theorem FpS_one_is_neutral:
  fixes a :: "'b::len word FpS"
  assumes "LENGTH('b) \<le> LENGTH('o::len)"
    and "representable (min LENGTH('b) 32) (2 ^ F)"
    and "representable LENGTH('o) (sint (FpS_rawVal a) * 2 ^ F)"
  shows "sint (FpS_rawVal (FpS_int F 1 :: 'b word FpS)) = 2 ^ F
    \<and> FpS_mul TYPE('o) F a (FpS_int F 1) = a
    \<and> FpS_eq (FpS_mul TYPE('o) F a (FpS_int F 1)) a
    \<and> FpS_div TYPE('o) F a (FpS_int F 1) = Some a"
  using assms by (simp add: FpS_mul_def FpS_div_def FpS_eq_def sint_FpS_int_one FpS_mul_assign_one FpS_div_assign_one)

text \<open>
  The least value of \<open>fp16\<close>, of raw value -32768.
\<close>

theorem FpS_one_is_neutral_witness:
  "LENGTH(16) \<le> LENGTH(32) \<and> representable (min 16 32) (2 ^ 8)
   \<and> representable 32 (sint (FpS_rawVal (\<lparr>FpS_rawVal = - 32768\<rparr> :: fp16)) * 2 ^ 8)
   \<and> FpS_mul TYPE(32) 8 (\<lparr>FpS_rawVal = - 32768\<rparr> :: fp16) (FpS_int 8 1) = \<lparr>FpS_rawVal = - 32768\<rparr>
   \<and> FpS_div TYPE(32) 8 (\<lparr>FpS_rawVal = - 32768\<rparr> :: fp16) (FpS_int 8 1) = Some \<lparr>FpS_rawVal = - 32768\<rparr>"
proof -
  let ?a = "\<lparr>FpS_rawVal = - 32768\<rparr> :: fp16"
  have w: "LENGTH(16) \<le> LENGTH(32)" by simp
  have o: "representable (min LENGTH(16) 32) (2 ^ 8)" by (simp add: representable_def)
  have r: "representable LENGTH(32) (sint (FpS_rawVal ?a) * 2 ^ 8)" by (simp add: representable_def)
  from FpS_one_is_neutral [OF w o r]
  have "FpS_mul TYPE(32) 8 ?a (FpS_int 8 1) = ?a" and "FpS_div TYPE(32) 8 ?a (FpS_int 8 1) = Some ?a"
    by blast+
  with o r show ?thesis by simp
qed

section \<open>Comparison\<close>

lemma FpS_linorder: "class.linorder (FpS_le :: 'b::len word FpS \<Rightarrow> 'b word FpS \<Rightarrow> bool) FpS_lt"
  by standard (auto simp: FpS_le_def FpS_lt_def word_sle_eq word_sless_alt sint_eq_iff)

lemma represented_less: "(represented F a < represented F b) = (sint (FpS_rawVal a) < sint (FpS_rawVal b))"
  by (simp add: represented_def divide_less_cancel del: of_int_sint)

lemma represented_le: "(represented F a \<le> represented F b) = (sint (FpS_rawVal a) \<le> sint (FpS_rawVal b))"
  by (simp add: represented_def divide_le_cancel del: of_int_sint)

lemma represented_eq: "(represented F a = represented F b) = (sint (FpS_rawVal a) = sint (FpS_rawVal b))"
  by (simp add: represented_def del: of_int_sint)

text \<open>
  C8. Each of \<open>==\<close>, \<open>!=\<close>, \<open><\<close>, \<open>>\<close>, \<open><=\<close> and \<open>>=\<close> returns the comparison of the two
  raw values as signed integers. \<open><=\<close> and \<open><\<close> form a total order on the values of one
  instantiation, \<open>==\<close> is equality, and all six agree with the order of the represented
  numbers \<open>rawVal_ / 2 ^ F\<close>.
\<close>

theorem FpS_comparisons:
  fixes a b :: "'b::len word FpS"
  shows
  "FpS_eq a b = (sint (FpS_rawVal a) = sint (FpS_rawVal b))
   \<and> FpS_ne a b = (sint (FpS_rawVal a) \<noteq> sint (FpS_rawVal b))
   \<and> FpS_lt a b = (sint (FpS_rawVal a) < sint (FpS_rawVal b))
   \<and> FpS_gt a b = (sint (FpS_rawVal a) > sint (FpS_rawVal b))
   \<and> FpS_le a b = (sint (FpS_rawVal a) \<le> sint (FpS_rawVal b))
   \<and> FpS_ge a b = (sint (FpS_rawVal a) \<ge> sint (FpS_rawVal b))
   \<and> class.linorder (FpS_le :: 'b word FpS \<Rightarrow> 'b word FpS \<Rightarrow> bool) FpS_lt
   \<and> FpS_eq a b = (a = b)
   \<and> FpS_eq a b = (represented F a = represented F b)
   \<and> FpS_ne a b = (represented F a \<noteq> represented F b)
   \<and> FpS_lt a b = (represented F a < represented F b)
   \<and> FpS_gt a b = (represented F a > represented F b)
   \<and> FpS_le a b = (represented F a \<le> represented F b)
   \<and> FpS_ge a b = (represented F a \<ge> represented F b)"
proof -
  have raw: "FpS_eq a b = (sint (FpS_rawVal a) = sint (FpS_rawVal b))"
    "FpS_ne a b = (sint (FpS_rawVal a) \<noteq> sint (FpS_rawVal b))"
    "FpS_lt a b = (sint (FpS_rawVal a) < sint (FpS_rawVal b))"
    "FpS_gt a b = (sint (FpS_rawVal a) > sint (FpS_rawVal b))"
    "FpS_le a b = (sint (FpS_rawVal a) \<le> sint (FpS_rawVal b))"
    "FpS_ge a b = (sint (FpS_rawVal a) \<ge> sint (FpS_rawVal b))"
    by (simp_all add: FpS_eq_def FpS_ne_def FpS_lt_def FpS_gt_def FpS_le_def FpS_ge_def
        word_sle_eq word_sless_alt sint_eq_iff)
  have same: "FpS_eq a b = (a = b)"
    by (auto simp: FpS_eq_def)
  show ?thesis
    unfolding represented_less represented_le represented_eq
    using raw same FpS_linorder [where 'b = 'b] by blast
qed

section \<open>Unary minus\<close>

text \<open>
  C2. Unary minus is meant to give the value whose raw value is the negation of the raw
  value of \<open>a\<close>, so that \<open>(-a) + a\<close> is zero. The source negates the raw value and hands
  it to the constructor from an integer, which shifts it left by \<open>F\<close> bits. For the \<open>fp16\<close> of raw
  value -1 (constructed from the double -1/256) the raw value of \<open>-a\<close> is 256, not 1, and
  that of \<open>(-a) + a\<close> is 255; likewise 65536 for \<open>fp32\<close>. The negation of the \<open>fp16\<close>
  constructed from the integer 1 has the raw value 0.
\<close>

theorem FpS_neg_shifts_the_negated_raw_value:
  "FpS_rawVal (FpS_double 8 (- (1 / 256)) :: fp16) = - 1
   \<and> FpS_rawVal (FpS_neg 8 (FpS_double 8 (- (1 / 256)) :: fp16)) = 256
   \<and> FpS_rawVal (FpS_add (FpS_neg 8 (FpS_double 8 (- (1 / 256)) :: fp16))
        (FpS_double 8 (- (1 / 256)))) = 255
   \<and> FpS_rawVal (FpS_double 16 (- (1 / 65536)) :: fp32) = - 1
   \<and> FpS_rawVal (FpS_neg 16 (FpS_double 16 (- (1 / 65536)) :: fp32)) = 65536
   \<and> FpS_rawVal (FpS_int 8 1 :: fp16) = 256
   \<and> FpS_rawVal (FpS_neg 8 (FpS_int 8 1 :: fp16)) = 0"
  by (simp add: FpS_neg_def FpS_int_def FpS_double_def one_shl_def round_toward_zero_def
      FpS_add_def FpS_add_assign_def ceiling_def)

section \<open>Fp32s\<close>

text \<open>
  C9. When the scale of the left operand is at most that of the right operand,
  \<open>operator+=\<close> of \<open>Fp32s\<close> adds nothing: the left operand is returned as it was.
\<close>

theorem Fp32s_add_assign_no_addition:
  "Fp32s_q x \<le> Fp32s_q r \<Longrightarrow> Fp32s_add_assign x r = x"
  by (simp add: Fp32s_add_assign_def)

text \<open>
  One plus one at the scale 8: the constructor gives the raw value 256, both scales are
  equal, and the sum is still one.
\<close>

theorem Fp32s_add_assign_no_addition_witness:
  "Fp32s_int 1 8 = Some \<lparr>Fp32s_rawVal = 256, Fp32s_q = 8\<rparr>
   \<and> Fp32s_q \<lparr>Fp32s_rawVal = 256, Fp32s_q = 8\<rparr> \<le> Fp32s_q \<lparr>Fp32s_rawVal = 256, Fp32s_q = 8\<rparr>
   \<and> Fp32s_add_assign \<lparr>Fp32s_rawVal = 256, Fp32s_q = 8\<rparr> \<lparr>Fp32s_rawVal = 256, Fp32s_q = 8\<rparr>
      = \<lparr>Fp32s_rawVal = 256, Fp32s_q = 8\<rparr>"
proof -
  let ?one = "\<lparr>Fp32s_rawVal = 256, Fp32s_q = 8\<rparr>"
  have c: "Fp32s_int 1 8 = Some ?one" by (simp add: Fp32s_int_def)
  have h: "Fp32s_q ?one \<le> Fp32s_q ?one" by simp
  from Fp32s_add_assign_no_addition [OF h] have "Fp32s_add_assign ?one ?one = ?one" .
  with c h show ?thesis by simp
qed

end
